theory Spec2Isabelle
  imports Complex_Main "HOL-Library.Sublist"
begin

section \<open>The ActiveCampaign synchronisation script\<close>

text \<open>
  A shallow embedding of \<^verbatim>\<open>script.py\<close>: the batch partitioner \<^verbatim>\<open>payload_parser\<close>, the
  bulk-import loop, the paginated collectors with their field projection, the custom-field
  lookup, the rolling date window and its filter, the list-id selection of the two record
  mappers and the run-log upload.

  Conventions. An exception of the script is a value \<open>Inl e\<close> of a sum type; reading a
  global name that the file binds nowhere is the exception \<^verbatim>\<open>NameError\<close>. The remote
  services are parameters: the marketing API is a function from a GET request to the JSON
  body it answers with, the file store is a map from file names to contents. Calls that only
  act on the outside world (\<^verbatim>\<open>requests.post\<close>, \<^verbatim>\<open>time.sleep\<close>) are recorded in a list
  of effects, in program order. Lengths, indices and byte counts are natural numbers
  (\<^verbatim>\<open>len\<close>, \<^verbatim>\<open>range\<close> and \<^verbatim>\<open>sys.getsizeof\<close> never yield a negative number); dates are
  integers.
\<close>

subsection \<open>Exceptions and JSON values\<close>

datatype exn =
  KeyError | TypeError | AttributeError | OverflowError | ValueError | NameError

text \<open>
  What \<^verbatim>\<open>response.json()\<close> returns. An object is an association list read with
  \<open>map_of\<close>. Numbers are never inspected by the script, so integers suffice.
\<close>

datatype json =
  JNull
| JBool bool
| JNum int
| JStr string
| JArr "json list"
| JObj "(string \<times> json) list"

text \<open>\<^verbatim>\<open>obj[k]\<close> with a string key \<open>k\<close>.\<close>

fun py_getitem :: "json \<Rightarrow> string \<Rightarrow> exn + json" where
  "py_getitem (JObj kvs) k = (case map_of kvs k of None \<Rightarrow> Inl KeyError | Some v \<Rightarrow> Inr v)"
| "py_getitem _ k = Inl TypeError"

text \<open>\<^verbatim>\<open>k in obj\<close> with a string \<open>k\<close>: key test on a dict, membership in a list, substring
  test on a string, \<^verbatim>\<open>TypeError\<close> on anything that is not a container.\<close>

fun py_contains :: "string \<Rightarrow> json \<Rightarrow> exn + bool" where
  "py_contains k (JObj kvs) = Inr (k \<in> set (map fst kvs))"
| "py_contains k (JArr xs) = Inr (JStr k \<in> set xs)"
| "py_contains k (JStr s) = Inr (sublist k s)"
| "py_contains k _ = Inl TypeError"

text \<open>\<^verbatim>\<open>for x in obj\<close>: the elements of a list, the keys of a dict, the characters of a
  string.\<close>

fun py_iter :: "json \<Rightarrow> exn + json list" where
  "py_iter (JArr xs) = Inr xs"
| "py_iter (JObj kvs) = Inr (map JStr (remdups (map fst kvs)))"
| "py_iter (JStr s) = Inr (map (\<lambda>c. JStr [c]) s)"
| "py_iter _ = Inl TypeError"

subsection \<open>Batch partitioner\<close>

text \<open>
  \<^verbatim>\<open>
  def payload_parser(payload):
      list_index = [0]
      len_payload = len(payload["contacts"])
      payload_size_bytes = sys.getsizeof(json.dumps(payload["contacts"]))
      while list_index[-1] < len_payload:
          last_index = list_index[-1] + int(360000 / payload_size_bytes * len_payload) + 1
          list_index.append(last_index)
      list_index[-1] = len_payload
      return list_index
  \<close>
  The payload is the one-key dict \<^verbatim>\<open>{"contacts": [...]}\<close> built two lines before each call.
  The JSON text of a single record is a parameter \<open>enc\<close>; \<^verbatim>\<open>json.dumps\<close> of a list joins
  the records with \<^verbatim>\<open>", "\<close> inside brackets, and its output is ASCII, for which
  \<^verbatim>\<open>sys.getsizeof\<close> is the 49-byte header of a compact string plus one byte per character.
  The quotient \<^verbatim>\<open>360000 / payload_size_bytes * len_payload\<close> is taken over the reals, that
  is, without the rounding of double precision; \<^verbatim>\<open>int\<close> truncates towards zero. The
  divisor is at least 49, so the division never fails.
\<close>

record 'a payload =
  contacts :: "'a list"

fun join :: "string \<Rightarrow> string list \<Rightarrow> string" where
  "join sep [] = []"
| "join sep [s] = s"
| "join sep (s # t # ss) = s @ sep @ join sep (t # ss)"

definition json_dumps :: "('a \<Rightarrow> string) \<Rightarrow> 'a list \<Rightarrow> string" where
  "json_dumps enc xs = ''['' @ join '', '' (map enc xs) @ '']''"

definition getsizeof :: "string \<Rightarrow> nat" where
  "getsizeof s = 49 + length s"

definition py_int :: "real \<Rightarrow> int" where
  "py_int x = (if 0 \<le> x then \<lfloor>x\<rfloor> else \<lceil>x\<rceil>)"

definition int_quotient :: "nat \<Rightarrow> nat \<Rightarrow> nat" where
  "int_quotient payload_size_bytes len_payload =
     nat (py_int (360000 / real payload_size_bytes * real len_payload))"

text \<open>The \<^verbatim>\<open>while\<close> loop; \<open>q\<close> is the value of \<^verbatim>\<open>int(...)\<close>, the same in every round.\<close>

function payload_loop :: "nat \<Rightarrow> nat \<Rightarrow> nat list \<Rightarrow> nat list" where
  "payload_loop q len_payload list_index =
     (if last list_index < len_payload
      then payload_loop q len_payload (list_index @ [last list_index + q + 1])
      else list_index)"
  by pat_completeness auto
termination
  by (relation "measure (\<lambda>(q, len_payload, list_index). len_payload - last list_index)") auto

declare payload_loop.simps [simp del]

definition payload_parser :: "('a \<Rightarrow> string) \<Rightarrow> 'a payload \<Rightarrow> nat list" where
  "payload_parser enc payload =
     (let list_index = [0];
          len_payload = length (contacts payload);
          payload_size_bytes = getsizeof (json_dumps enc (contacts payload));
          list_index = payload_loop (int_quotient payload_size_bytes len_payload) len_payload list_index
      in list_index[length list_index - 1 := len_payload])"

subsection \<open>Requests and effects\<close>

type_synonym headers = "(string \<times> string) list"

text \<open>A GET request of the script: the URL, the headers and the query parameters.\<close>

record get_request =
  get_url :: string
  get_headers :: headers
  get_params :: "(string \<times> nat) list"

text \<open>What the script does to the outside world, in the order in which it does it.\<close>

datatype 'a effect =
  Get get_request
| Post string "'a payload" headers
| Sleep nat

definition headers_post_bulk_import_contact :: "string \<Rightarrow> headers" where
  "headers_post_bulk_import_contact api_token =
     [(''accept'', ''application/json''),
      (''Content-Type'', ''application/json''),
      (''Api-Token'', api_token)]"

definition headers_get_bounced_unsubbed_contact :: "string \<Rightarrow> headers" where
  "headers_get_bounced_unsubbed_contact api_token =
     [(''accept'', ''application/json''),
      (''Api-Token'', api_token)]"

definition url_bounced_contact :: string where
  "url_bounced_contact = ''https://hri618.api-us1.com/api/3/contacts?status=3''"

definition url_unsubbed_contact :: string where
  "url_unsubbed_contact = ''https://hri618.api-us1.com/api/3/contacts?status=2''"

subsection \<open>Global names\<close>

text \<open>
  The file is the whole program: it imports no name with \<^verbatim>\<open>*\<close>, so a global name has a
  value only where the file itself binds it. Two tables hold the names that the file binds at
  module level to a string literal and to a headers dict. Reading a name where a request
  expects a URL or its headers gives the value from the table, and \<^verbatim>\<open>NameError\<close> for a name
  that the file binds to nothing. (No request of the file reads, at such a place, a name
  bound to a value of another kind.)
\<close>

definition module_strings :: "(string \<times> string) list" where
  "module_strings =
     [(''vault_name'', ''''),
      (''url_vault'', ''https://.vault.azure.net/''),
      (''url_sharepoint'', ''https://heartresearchinstitute.sharepoint.com''),
      (''site_sharepoint_from_JO'', ''''),
      (''site_sharepoint_from_NO'', ''''),
      (''site_sharepoint_log_dump'', ''''),
      (''path_sharepoint_folder_from_JO'', ''''),
      (''path_sharepoint_folder_from_NO'', ''''),
      (''path_sharepoint_folder_log_dump'', ''''),
      (''url_bulk_import_contact'', ''https://hri618.api-us1.com/api/3/import/bulk_import''),
      (''url_bounced_contact'', url_bounced_contact),
      (''url_unsubbed_contact'', url_unsubbed_contact)]"

definition module_headers :: "string \<Rightarrow> (string \<times> headers) list" where
  "module_headers api_token =
     [(''headers_post_bulk_import_contact'', headers_post_bulk_import_contact api_token),
      (''headers_get_bounced_unsubbed_contact'', headers_get_bounced_unsubbed_contact api_token)]"

definition load_string :: "string \<Rightarrow> exn + string" where
  "load_string name =
     (case map_of module_strings name of None \<Rightarrow> Inl NameError | Some s \<Rightarrow> Inr s)"

definition load_headers :: "string \<Rightarrow> string \<Rightarrow> exn + headers" where
  "load_headers api_token name =
     (case map_of (module_headers api_token) name of None \<Rightarrow> Inl NameError | Some h \<Rightarrow> Inr h)"

subsection \<open>Bulk import client\<close>

text \<open>
  \<^verbatim>\<open>
  payload = {"contacts": to_import_from_JO}
  payload_index = payload_parser(payload)
  for i in range(len(payload_index) - 1):
      _payload = {"contacts": to_import_from_JO[payload_index[i] : payload_index[i + 1]]}
      requests.post(url, json = _payload, headers = headers_post_bulk_import_contact)
      time.sleep(1)
  \<close>
  The same block follows each of the two record mappers. The arguments of the call are
  evaluated from left to right, the name \<^verbatim>\<open>url\<close> first; an exception ends the loop. The
  answer of the POST is not read by the script. The loop is written for the two names that
  stand in the call, so that it can also be read with another name in the place of
  \<^verbatim>\<open>url\<close>; \<open>bulk_import\<close> is the loop with the names of the file.
\<close>

text \<open>\<^verbatim>\<open>xs[a:b]\<close> for indices that are not negative.\<close>

definition slice :: "'a list \<Rightarrow> nat \<Rightarrow> nat \<Rightarrow> 'a list" where
  "slice xs a b = take (b - a) (drop a xs)"

fun post_batches ::
  "string \<Rightarrow> string \<Rightarrow> string \<Rightarrow> 'a list \<Rightarrow> nat list \<Rightarrow> nat list
   \<Rightarrow> 'a effect list \<times> (exn + unit)" where
  "post_batches url_name headers_name api_token to_import payload_index [] = ([], Inr ())"
| "post_batches url_name headers_name api_token to_import payload_index (i # rest) =
     (let payload' = \<lparr>contacts = slice to_import (payload_index ! i) (payload_index ! (i + 1))\<rparr>
      in case load_string url_name of
           Inl e \<Rightarrow> ([], Inl e)
         | Inr url \<Rightarrow>
        (case load_headers api_token headers_name of
           Inl e \<Rightarrow> ([], Inl e)
         | Inr hdrs \<Rightarrow>
        (case post_batches url_name headers_name api_token to_import payload_index rest of
           (es, r) \<Rightarrow> (Post url payload' hdrs # Sleep 1 # es, r))))"

definition bulk_import ::
  "string \<Rightarrow> ('a \<Rightarrow> string) \<Rightarrow> 'a list \<Rightarrow> 'a effect list \<times> (exn + unit)" where
  "bulk_import api_token enc to_import =
     (let payload = \<lparr>contacts = to_import\<rparr>;
          payload_index = payload_parser enc payload
      in post_batches ''url'' ''headers_post_bulk_import_contact'' api_token to_import
           payload_index [0 ..< length payload_index - 1])"

text \<open>The record lists that a run of effects has POSTed, in order.\<close>

fun posted :: "'a effect list \<Rightarrow> 'a list list" where
  "posted [] = []"
| "posted (Post u p h # es) = contacts p # posted es"
| "posted (e # es) = posted es"

subsection \<open>Paginated collector and field projection\<close>

text \<open>
  \<^verbatim>\<open>
  def get_bounced_contacts(index):
      _response = requests.get(url_bounced_contact, headers = headers,
                               params = {"limit": 100, "offset": 100 * index})
      _response = [
          {k: index[k] for k in ["email", "firstName", "lastName", "bounced_date", "id"] if k in index}
          for index in _response.json()["contacts"]
      ]
      time.sleep(1)
      return _response
  \<close>
  and the same for \<^verbatim>\<open>get_unsubbed_contacts\<close> with its URL and key list. The arguments of
  \<^verbatim>\<open>requests.get\<close> are evaluated from left to right: the URL name, then the name
  \<^verbatim>\<open>headers\<close>, then the parameters; an exception there ends the call before any request.
  The body is written once, \<open>get_page\<close>, for the two names that stand in the call and the
  key list; the two functions are the body with the names of the file. A dict that the
  comprehension builds is the association list of its items in insertion order.
\<close>

type_synonym dict = "(string \<times> json) list"

type_synonym api = "get_request \<Rightarrow> json"

text \<open>\<^verbatim>\<open>{k: index[k] for k in keys if k in index}\<close>\<close>

fun project :: "string list \<Rightarrow> json \<Rightarrow> exn + dict" where
  "project [] index = Inr []"
| "project (k # ks) index =
     (case py_contains k index of
        Inl e \<Rightarrow> Inl e
      | Inr False \<Rightarrow> project ks index
      | Inr True \<Rightarrow>
          (case py_getitem index k of
             Inl e \<Rightarrow> Inl e
           | Inr v \<Rightarrow>
               (case project ks index of
                  Inl e \<Rightarrow> Inl e
                | Inr d \<Rightarrow> Inr ((k, v) # d))))"

text \<open>A list comprehension whose body may raise: the first exception ends it.\<close>

fun map_exn :: "('a \<Rightarrow> exn + 'b) \<Rightarrow> 'a list \<Rightarrow> exn + 'b list" where
  "map_exn f [] = Inr []"
| "map_exn f (x # xs) =
     (case f x of
        Inl e \<Rightarrow> Inl e
      | Inr y \<Rightarrow> (case map_exn f xs of Inl e \<Rightarrow> Inl e | Inr ys \<Rightarrow> Inr (y # ys)))"

definition project_page :: "string list \<Rightarrow> json \<Rightarrow> exn + dict list" where
  "project_page keys body =
     (case py_getitem body ''contacts'' of
        Inl e \<Rightarrow> Inl e
      | Inr cs \<Rightarrow>
          (case py_iter cs of
             Inl e \<Rightarrow> Inl e
           | Inr items \<Rightarrow> map_exn (project keys) items))"

definition bounced_keys :: "string list" where
  "bounced_keys = [''email'', ''firstName'', ''lastName'', ''bounced_date'', ''id'']"

definition unsubbed_keys :: "string list" where
  "unsubbed_keys = [''email'', ''firstName'', ''lastName'', ''cdate'', ''udate'', ''id'']"

text \<open>The request of one page: \<^verbatim>\<open>params = {"limit": 100, "offset": 100 * index}\<close>.\<close>

definition page_request :: "string \<Rightarrow> headers \<Rightarrow> nat \<Rightarrow> get_request" where
  "page_request u hdrs index =
     \<lparr>get_url = u, get_headers = hdrs,
      get_params = [(''limit'', 100), (''offset'', 100 * index)]\<rparr>"

definition get_page ::
  "string \<Rightarrow> string \<Rightarrow> string list \<Rightarrow> string \<Rightarrow> api \<Rightarrow> nat
   \<Rightarrow> 'a effect list \<times> (exn + dict list)" where
  "get_page url_name headers_name keys api_token api index =
     (case load_string url_name of
        Inl e \<Rightarrow> ([], Inl e)
      | Inr u \<Rightarrow>
     (case load_headers api_token headers_name of
        Inl e \<Rightarrow> ([], Inl e)
      | Inr hdrs \<Rightarrow>
          (let req = page_request u hdrs index
           in case project_page keys (api req) of
                Inl e \<Rightarrow> ([Get req], Inl e)
              | Inr response \<Rightarrow> ([Get req, Sleep 1], Inr response))))"

definition get_bounced_contacts ::
  "string \<Rightarrow> api \<Rightarrow> nat \<Rightarrow> 'a effect list \<times> (exn + dict list)" where
  "get_bounced_contacts api_token api index =
     get_page ''url_bounced_contact'' ''headers'' bounced_keys api_token api index"

definition get_unsubbed_contacts ::
  "string \<Rightarrow> api \<Rightarrow> nat \<Rightarrow> 'a effect list \<times> (exn + dict list)" where
  "get_unsubbed_contacts api_token api index =
     get_page ''url_unsubbed_contact'' ''headers'' unsubbed_keys api_token api index"

text \<open>
  \<^verbatim>\<open>Parallel(n_jobs = 5)(delayed(f)(i) for i in iterator)\<close> returns the list of the results
  in the order of \<^verbatim>\<open>iterator\<close>, whichever worker finishes first. The interleaving of the
  workers is not modelled: the effects of the calls are listed by position in the iterator,
  and an exception in a call is the outcome of the whole.
\<close>

fun Parallel :: "('i \<Rightarrow> 'a effect list \<times> (exn + 'r)) \<Rightarrow> 'i list \<Rightarrow> 'a effect list \<times> (exn + 'r list)" where
  "Parallel f [] = ([], Inr [])"
| "Parallel f (i # iterator) =
     (case f i of
        (es, Inl e) \<Rightarrow> (es, Inl e)
      | (es, Inr r) \<Rightarrow>
          (case Parallel f iterator of
             (es', Inl e) \<Rightarrow> (es @ es', Inl e)
           | (es', Inr rs) \<Rightarrow> (es @ es', Inr (r # rs))))"

text \<open>
  \<^verbatim>\<open>
  def process_contacts(iterator, kind):
      list_response = []
      if kind == "bounced":
          _response = Parallel(n_jobs = 5, verbose = 0)(delayed(get_bounced_contacts)(i) for i in iterator)
          list_response.extend(_response)
      if kind == "unsubbed":
          _response = Parallel(n_jobs = 5, verbose = 0)(delayed(get_unsubbed_contacts)(i) for i in iterator)
          list_response.extend(_response)
      return list_response
  \<close>
  The two tests exclude each other, so the second is the \<open>else\<close> of the first.
\<close>

definition process_contacts ::
  "string \<Rightarrow> api \<Rightarrow> nat list \<Rightarrow> string \<Rightarrow> 'a effect list \<times> (exn + dict list list)" where
  "process_contacts api_token api iterator kind =
     (if kind = ''bounced'' then Parallel (get_bounced_contacts api_token api) iterator
      else if kind = ''unsubbed'' then Parallel (get_unsubbed_contacts api_token api) iterator
      else ([], Inr []))"

text \<open>
  \<^verbatim>\<open>
  iterator = range(math.ceil(int(response.json()["meta"]["total"]) / 100))
  list_response = process_contacts(iterator, "bounced")
  df_contacts_bounced = pd.DataFrame([i for j in list_response for i in j])
  \<close>
  \<open>n_total\<close> is the value of \<^verbatim>\<open>int(response.json()["meta"]["total"])\<close>; the division is
  taken over the reals.
\<close>

definition page_iterator :: "int \<Rightarrow> nat list" where
  "page_iterator n_total = [0 ..< nat \<lceil>real_of_int n_total / 100\<rceil>]"

definition collate :: "string \<Rightarrow> api \<Rightarrow> int \<Rightarrow> string \<Rightarrow> 'a effect list \<times> (exn + dict list)" where
  "collate api_token api n_total kind =
     (let iterator = page_iterator n_total
      in case process_contacts api_token api iterator kind of
           (es, Inl e) \<Rightarrow> (es, Inl e)
         | (es, Inr list_response) \<Rightarrow> (es, Inr (concat list_response)))"

text \<open>The GET requests in a run of effects, in order.\<close>

fun requested :: "'a effect list \<Rightarrow> get_request list" where
  "requested [] = []"
| "requested (Get r # es) = r # requested es"
| "requested (e # es) = requested es"

subsection \<open>Constituent id lookup\<close>

text \<open>
  \<^verbatim>\<open>
  def get_contacts_cons_id(cons_id):
      _url = f"https://hri618.api-us1.com/api/3/contacts/{cons_id}"
      _response = requests.get(_url, headers = headers_get_bounced_unsubbed_contact)
      _cons_id = [np.nan if len([i for i in _response.json()["fieldValues"] if i["field"] == "2"]) == 0 \
                  else [i for i in _response.json()["fieldValues"] if i["field"] == "2"][0]["value"]][0]
      time.sleep(1)
      return _cons_id
  \<close>
  The comprehension is written twice and has the same value both times.
\<close>

datatype cons_id = NaN | Value json

fun filter_exn :: "('a \<Rightarrow> exn + bool) \<Rightarrow> 'a list \<Rightarrow> exn + 'a list" where
  "filter_exn p [] = Inr []"
| "filter_exn p (x # xs) =
     (case p x of
        Inl e \<Rightarrow> Inl e
      | Inr b \<Rightarrow>
          (case filter_exn p xs of
             Inl e \<Rightarrow> Inl e
           | Inr ys \<Rightarrow> Inr (if b then x # ys else ys)))"

text \<open>\<^verbatim>\<open>[i for i in response["fieldValues"] if i["field"] == "2"]\<close>\<close>

definition field_two :: "json \<Rightarrow> exn + json list" where
  "field_two response =
     (case py_getitem response ''fieldValues'' of
        Inl e \<Rightarrow> Inl e
      | Inr fvs \<Rightarrow>
          (case py_iter fvs of
             Inl e \<Rightarrow> Inl e
           | Inr items \<Rightarrow>
               filter_exn (\<lambda>i. case py_getitem i ''field'' of
                                  Inl e \<Rightarrow> Inl e
                                | Inr f \<Rightarrow> Inr (f = JStr ''2'')) items))"

text \<open>The request for one contact: the URL ends in the contact's id, no parameters.\<close>

definition cons_id_request :: "string \<Rightarrow> string \<Rightarrow> get_request" where
  "cons_id_request api_token cons_id =
     \<lparr>get_url = ''https://hri618.api-us1.com/api/3/contacts/'' @ cons_id,
      get_headers = headers_get_bounced_unsubbed_contact api_token,
      get_params = []\<rparr>"

definition get_contacts_cons_id ::
  "string \<Rightarrow> api \<Rightarrow> string \<Rightarrow> 'a effect list \<times> (exn + cons_id)" where
  "get_contacts_cons_id api_token api cons_id =
     (let req = cons_id_request api_token cons_id;
          response = api req
      in case field_two response of
           Inl e \<Rightarrow> ([Get req], Inl e)
         | Inr sel \<Rightarrow>
             if length sel = 0 then ([Get req, Sleep 1], Inr NaN)
             else (case py_getitem (sel ! 0) ''value'' of
                     Inl e \<Rightarrow> ([Get req], Inl e)
                   | Inr v \<Rightarrow> ([Get req, Sleep 1], Inr (Value v))))"

subsection \<open>Rolling date window\<close>

text \<open>
  \<^verbatim>\<open>
  current_date = datetime.datetime.now().date()
  year, month, day = current_date.year, current_date.month, current_date.day
  weekly_multiplier, lookback_days = 1, 7
  start_date = datetime.date(year, month, day) \
               - datetime.timedelta(days = current_date.weekday()) \
               - datetime.timedelta(days = lookback_days) \
               - datetime.timedelta(days = 1)
  end_date = start_date + datetime.timedelta(days = (7 * weekly_multiplier) + 1)
  \<close>
  A date is its proleptic Gregorian ordinal (\<^verbatim>\<open>date.toordinal()\<close>: day 1 is 0001-01-01, a
  Monday). Every operation of the script on dates is a function of the ordinal:
  \<^verbatim>\<open>weekday()\<close> is \<open>(ordinal + 6) mod 7\<close> with Monday \<open>0\<close>, adding a \<^verbatim>\<open>timedelta\<close> adds its
  days and raises \<^verbatim>\<open>OverflowError\<close> outside \<^verbatim>\<open>date.min\<close> .. \<^verbatim>\<open>date.max\<close>, and dates
  compare as their ordinals do. \<^verbatim>\<open>datetime.date(year, month, day)\<close> rebuilds
  \<^verbatim>\<open>current_date\<close> from its own fields.
\<close>

type_synonym date = int

definition is_leap :: "int \<Rightarrow> bool" where
  "is_leap y = (y mod 4 = 0 \<and> (y mod 100 \<noteq> 0 \<or> y mod 400 = 0))"

definition days_before_year :: "int \<Rightarrow> int" where
  "days_before_year y = (y - 1) * 365 + (y - 1) div 4 - (y - 1) div 100 + (y - 1) div 400"

definition days_in_month :: "int \<Rightarrow> nat \<Rightarrow> int" where
  "days_in_month y m =
     (if m = 2 \<and> is_leap y then 29
      else [31, 28, 31, 30, 31, 30, 31, 31, 30, 31, 30, 31] ! (m - 1))"

definition days_before_month :: "int \<Rightarrow> nat \<Rightarrow> int" where
  "days_before_month y m = sum_list (map (days_in_month y) [1 ..< m])"

text \<open>The ordinal of the calendar day \<open>y\<close>-\<open>m\<close>-\<open>d\<close> (month 1 to 12), for writing dates
  down.\<close>

definition ymd :: "int \<Rightarrow> nat \<Rightarrow> nat \<Rightarrow> date" where
  "ymd y m d = days_before_year y + days_before_month y m + int d"

definition max_ordinal :: int where
  "max_ordinal = 3652059"

definition weekday :: "date \<Rightarrow> int" where
  "weekday d = (d + 6) mod 7"

definition add_days :: "date \<Rightarrow> int \<Rightarrow> exn + date" where
  "add_days d n = (if 1 \<le> d + n \<and> d + n \<le> max_ordinal then Inr (d + n) else Inl OverflowError)"

definition weekly_multiplier :: int where
  "weekly_multiplier = 1"

definition lookback_days :: int where
  "lookback_days = 7"

definition date_window :: "date \<Rightarrow> exn + date \<times> date" where
  "date_window current_date =
     (case add_days current_date (- weekday current_date) of
        Inl e \<Rightarrow> Inl e
      | Inr d1 \<Rightarrow>
     (case add_days d1 (- lookback_days) of
        Inl e \<Rightarrow> Inl e
      | Inr d2 \<Rightarrow>
     (case add_days d2 (- 1) of
        Inl e \<Rightarrow> Inl e
      | Inr start_date \<Rightarrow>
     (case add_days start_date (7 * weekly_multiplier + 1) of
        Inl e \<Rightarrow> Inl e
      | Inr end_date \<Rightarrow> Inr (start_date, end_date)))))"

text \<open>
  The specification's name for the Monday of the week before the run: the Monday of the
  run's own week is \<open>current_date - weekday current_date\<close>, the one before is seven days
  earlier.
\<close>

definition last_week_start :: "date \<Rightarrow> date" where
  "last_week_start current_date = current_date - weekday current_date - 7"

subsection \<open>Date-range filter\<close>

text \<open>
  \<^verbatim>\<open>
  df_contacts_bounced = df_contacts_bounced[(df_contacts_bounced["bounced_date"] > start_date) \
                                            & (df_contacts_bounced["bounced_date"] < end_date)]
  df_contacts_unsubbed = df_contacts_unsubbed[(df_contacts_unsubbed["udate"] > start_date) \
                                            & (df_contacts_unsubbed["udate"] < end_date)]
  \<close>
  A frame is the list of its rows. A cell of a date column, after
  \<^verbatim>\<open>pd.to_datetime(...).dt.date\<close>, is a date or the missing value \<^verbatim>\<open>NaT\<close>, which is neither
  greater nor less than any date. A row has the date column and whatever other columns the
  frame carries (the \<open>more\<close> part of the record).
\<close>

datatype cell = NaT | Date date

fun cell_gt :: "cell \<Rightarrow> date \<Rightarrow> bool" where
  "cell_gt (Date d) x = (d > x)"
| "cell_gt NaT x = False"

fun cell_lt :: "cell \<Rightarrow> date \<Rightarrow> bool" where
  "cell_lt (Date d) x = (d < x)"
| "cell_lt NaT x = False"

record bounced_row =
  bounced_date :: cell

record unsubbed_row =
  cdate :: cell
  udate :: cell

definition filter_bounced ::
  "date \<Rightarrow> date \<Rightarrow> 'a bounced_row_scheme list \<Rightarrow> 'a bounced_row_scheme list" where
  "filter_bounced start_date end_date df_contacts_bounced =
     filter (\<lambda>r. cell_gt (bounced_date r) start_date \<and> cell_lt (bounced_date r) end_date)
       df_contacts_bounced"

definition filter_unsubbed ::
  "date \<Rightarrow> date \<Rightarrow> 'a unsubbed_row_scheme list \<Rightarrow> 'a unsubbed_row_scheme list" where
  "filter_unsubbed start_date end_date df_contacts_unsubbed =
     filter (\<lambda>r. cell_gt (udate r) start_date \<and> cell_lt (udate r) end_date)
       df_contacts_unsubbed"

subsection \<open>List-id selection of the record mappers\<close>

text \<open>
  \<^verbatim>\<open>np.select(condlist, choicelist)\<close> gives, for each row, the choice of the first
  condition that holds and the default otherwise; the two lists must have the same length.
  \<^verbatim>\<open>Series.str.contains\<close> with a pattern of letters only, and \<^verbatim>\<open>in\<close> on strings, test
  for a substring. The default of \<^verbatim>\<open>np.select\<close> is \<^verbatim>\<open>0\<close>, which an array of strings holds
  as \<^verbatim>\<open>"0"\<close>.
\<close>

fun first_choice :: "bool list \<Rightarrow> 'a list \<Rightarrow> 'a \<Rightarrow> 'a" where
  "first_choice (c # cs) (x # xs) d = (if c then x else first_choice cs xs d)"
| "first_choice _ _ d = d"

definition np_select :: "bool list \<Rightarrow> 'a list \<Rightarrow> 'a \<Rightarrow> exn + 'a" where
  "np_select condlist choicelist dflt =
     (if length condlist \<noteq> length choicelist then Inl ValueError
      else Inr (first_choice condlist choicelist dflt))"

text \<open>
  The segmentation source, for one row with the cells \<open>appeal\<close> and \<open>package\<close> (strings):
  \<^verbatim>\<open>
  df["listid"] = np.select([
      df["Appeal"].str.contains("AU") & df["Package"].str.contains("Active"),
      df["Appeal"].str.contains("AU") & df["Package"].str.contains("Lapsed"),
      df["Appeal"].str.contains("AU") & df["Package"].str.contains("Insight"),
      df["Appeal"].str.contains("AU") & df["Package"].str.contains("NonInsight"),
      df["Appeal"].str.contains("NZ") & df["Package"].str.contains("Active"),
      df["Appeal"].str.contains("NZ") & df["Package"].str.contains("Lapsed"),
      df["Appeal"].str.contains("NZ") & df["Package"].str.contains("Other"),
  ], ["199", "200", "236", "237", "256", "254", "258"])
  \<close>
\<close>

definition seg_listid :: "string \<Rightarrow> string \<Rightarrow> exn + string" where
  "seg_listid appeal package =
     np_select
       [sublist ''AU'' appeal \<and> sublist ''Active'' package,
        sublist ''AU'' appeal \<and> sublist ''Lapsed'' package,
        sublist ''AU'' appeal \<and> sublist ''Insight'' package,
        sublist ''AU'' appeal \<and> sublist ''NonInsight'' package,
        sublist ''NZ'' appeal \<and> sublist ''Active'' package,
        sublist ''NZ'' appeal \<and> sublist ''Lapsed'' package,
        sublist ''NZ'' appeal \<and> sublist ''Other'' package]
       [''199'', ''200'', ''236'', ''237'', ''256'', ''254'', ''258'']
       ''0''"

text \<open>
  The welcome source, for one entry \<open>i\<close> of the folder listing:
  \<^verbatim>\<open>
  for i in files_sharepoint_from_JO:
      if (i["Name"].endswith(".xlsx")) or (i["Name"].endswith(".xls")):
          ...
      df["listid"] = np.select([
          "Welcome" in i.split(".")[0] # Donor Series - Welcome - Australia
          "1stWeekEmail" in i.split(".")[0] # Donor Series - Australia
          "2ndMonthEmail" in i.split(".")[0] # Donor Series - Month 2 - Australia
          "3rdMonthEmail" in i.split(".")[0] # Donor Series - Month 3 - Australia
          "2YearEmail" in i.split(".")[0] # Donor Series - 2 Years - Australia
      ], ["71", "26", "246", "241", "72"])
  \<close>
  As written, no comma separates the five conditions, so the list is not an expression of
  the language and the file does not compile. The model reads the five lines as the five
  conditions that the five choices call for, and evaluates what the loop does with \<open>i\<close> up
  to this point: \<^verbatim>\<open>i["Name"]\<close>, then \<^verbatim>\<open>.endswith\<close>, then \<^verbatim>\<open>i.split(".")\<close>. Only a string has
  the methods \<^verbatim>\<open>endswith\<close> and \<^verbatim>\<open>split\<close>.
\<close>

fun split_on :: "char \<Rightarrow> string \<Rightarrow> string list" where
  "split_on c [] = [[]]"
| "split_on c (x # xs) =
     (if x = c then [] # split_on c xs
      else (x # hd (split_on c xs)) # tl (split_on c xs))"

fun py_split :: "json \<Rightarrow> char \<Rightarrow> exn + string list" where
  "py_split (JStr s) c = Inr (split_on c s)"
| "py_split _ c = Inl AttributeError"

fun py_endswith :: "json \<Rightarrow> string \<Rightarrow> exn + bool" where
  "py_endswith (JStr s) t = Inr (suffix t s)"
| "py_endswith _ t = Inl AttributeError"

definition welcome_listid :: "json \<Rightarrow> exn + string" where
  "welcome_listid i =
     (case py_getitem i ''Name'' of
        Inl e \<Rightarrow> Inl e
      | Inr name \<Rightarrow>
     (case py_endswith name ''.xlsx'' of
        Inl e \<Rightarrow> Inl e
      | Inr _ \<Rightarrow>
     (case py_split i CHR ''.'' of
        Inl e \<Rightarrow> Inl e
      | Inr parts \<Rightarrow>
          np_select
            [sublist ''Welcome'' (parts ! 0),
             sublist ''1stWeekEmail'' (parts ! 0),
             sublist ''2ndMonthEmail'' (parts ! 0),
             sublist ''3rdMonthEmail'' (parts ! 0),
             sublist ''2YearEmail'' (parts ! 0)]
            [''71'', ''26'', ''246'', ''241'', ''72'']
            ''0'')))"

subsection \<open>Run log appender\<close>

text \<open>
  \<^verbatim>\<open>
  if any(i["Name"] == "runtime_logs.csv" for i in folder_sharepoint_log_dump.files()):
      _df_logs = pd.read_csv(StringIO(folder_sharepoint_log_dump.get_file("runtime_logs.csv").decode("utf-8")))
      _df_logs.append(df_logs, ignore_index = True)
      buffer = StringIO()
      _df_logs.to_csv(buffer, index = False, header = True)
      df_logs_to_upload = buffer.getvalue()
      folder_sharepoint_log_dump.upload_file(df_logs_to_upload, "runtime_logs.csv")
  else:
      buffer = StringIO()
      df_logs.to_csv(buffer, index = False, header = True)
      df_logs_to_upload = buffer.getvalue()
      folder_sharepoint_log_dump.upload_file(df_logs_to_upload, "runtime_logs.csv")
  \<close>
  A frame is its header and its rows; a CSV file written with \<^verbatim>\<open>header = True\<close> and read
  back is the frame it was written from, so the folder maps a file name to a frame.
  \<^verbatim>\<open>DataFrame.append\<close> returns a new frame and leaves its receiver as it was (in the
  versions of the library that still have the method).
\<close>

record dataframe =
  columns :: "string list"
  rows :: "string list list"

type_synonym folder = "string \<rightharpoonup> dataframe"

definition df_append :: "dataframe \<Rightarrow> dataframe \<Rightarrow> dataframe" where
  "df_append df other = \<lparr>columns = columns df, rows = rows df @ rows other\<rparr>"

definition log_columns :: "string list" where
  "log_columns =
     [''executed_at_AEST'', ''duration_in_mins'', ''num_contacts_welcome'',
      ''num_contacts_all_segments'', ''date_range_bounced_unsubbed_contacts'',
      ''num_contacts_bounced'', ''num_contacts_unsubbed'']"

text \<open>The one-row frame of this run; \<open>run\<close> holds the seven values, already printed.\<close>

definition df_logs :: "string list \<Rightarrow> dataframe" where
  "df_logs run = \<lparr>columns = log_columns, rows = [run]\<rparr>"

text \<open>The frame that is handed to \<^verbatim>\<open>upload_file\<close>.\<close>

definition df_logs_to_upload :: "folder \<Rightarrow> dataframe \<Rightarrow> dataframe" where
  "df_logs_to_upload folder_sharepoint_log_dump logs =
     (case folder_sharepoint_log_dump ''runtime_logs.csv'' of
        Some df_logs' \<Rightarrow>
          (let appended = df_append df_logs' logs
           in df_logs')
      | None \<Rightarrow> logs)"

definition run_log_appender :: "folder \<Rightarrow> dataframe \<Rightarrow> folder" where
  "run_log_appender folder_sharepoint_log_dump logs =
     folder_sharepoint_log_dump
       (''runtime_logs.csv'' \<mapsto> df_logs_to_upload folder_sharepoint_log_dump logs)"

section \<open>Properties\<close>

subsection \<open>The loop of the partitioner\<close>

lemma payload_loop_prefix: "\<exists>ys. payload_loop q n xs = xs @ ys"
proof (induction q n xs rule: payload_loop.induct)
  case (1 q n xs)
  show ?case
  proof (cases "last xs < n")
    case True
    with 1 obtain ys where "payload_loop q n (xs @ [last xs + q + 1]) = (xs @ [last xs + q + 1]) @ ys"
      by blast
    with True show ?thesis by (subst payload_loop.simps) simp
  next
    case False
    then show ?thesis by (subst payload_loop.simps) simp
  qed
qed

lemma payload_loop_last: "n \<le> last (payload_loop q n xs)"
proof (induction q n xs rule: payload_loop.induct)
  case (1 q n xs)
  show ?case
  proof (cases "last xs < n")
    case True
    with 1 show ?thesis by (subst payload_loop.simps) simp
  next
    case False
    then show ?thesis by (subst payload_loop.simps) simp
  qed
qed

lemma sorted_wrt_le_last:
  "sorted_wrt (<) xs \<Longrightarrow> x \<in> set xs \<Longrightarrow> x \<le> last (xs :: nat list)"
  by (induction xs) (auto simp: less_imp_le)

lemma payload_loop_sorted:
  "sorted_wrt (<) xs \<Longrightarrow> sorted_wrt (<) (payload_loop q n xs)"
proof (induction q n xs rule: payload_loop.induct)
  case (1 q n xs)
  show ?case
  proof (cases "last xs < n")
    case True
    have "\<forall>x\<in>set xs. x < last xs + q + 1"
      using sorted_wrt_le_last [OF 1(2)] by fastforce
    then have "sorted_wrt (<) (xs @ [last xs + q + 1])"
      using 1(2) by (simp add: sorted_wrt_append)
    with 1(1) [OF True] True show ?thesis by (subst payload_loop.simps) simp
  next
    case False
    with 1 show ?thesis by (subst payload_loop.simps) simp
  qed
qed

lemma payload_loop_below:
  "\<forall>x\<in>set (butlast xs). x < n \<Longrightarrow> \<forall>x\<in>set (butlast (payload_loop q n xs)). x < n"
proof (induction q n xs rule: payload_loop.induct)
  case (1 q n xs)
  show ?case
  proof (cases "last xs < n")
    case True
    have "\<forall>x\<in>set xs. x < n"
    proof (cases xs rule: rev_cases)
      case Nil
      then show ?thesis by simp
    next
      case (snoc ys y)
      with 1(2) True show ?thesis by simp
    qed
    then have "\<forall>x\<in>set (butlast (xs @ [last xs + q + 1])). x < n"
      by simp
    with 1(1) [OF True] True show ?thesis by (subst payload_loop.simps) simp
  next
    case False
    with 1 show ?thesis by (subst payload_loop.simps) simp
  qed
qed

lemma payload_loop_steps:
  "xs \<noteq> [] \<Longrightarrow> successively (\<lambda>a b. b \<le> a + q + 1) xs \<Longrightarrow>
   successively (\<lambda>a b. b \<le> a + q + 1) (payload_loop q n xs)"
proof (induction q n xs rule: payload_loop.induct)
  case (1 q n xs)
  show ?case
  proof (cases "last xs < n")
    case True
    have "successively (\<lambda>a b. b \<le> a + q + 1) (xs @ [last xs + q + 1])"
      using 1(2,3) by (simp add: successively_append_iff)
    with 1(1) [OF True] True show ?thesis by (subst payload_loop.simps) simp
  next
    case False
    with 1 show ?thesis by (subst payload_loop.simps) simp
  qed
qed

lemma payload_loop_nonempty: "xs \<noteq> [] \<Longrightarrow> payload_loop q n xs \<noteq> []"
  using payload_loop_prefix [of q n xs] by auto

lemma set_last_butlast: "xs \<noteq> [] \<Longrightarrow> xs[length xs - 1 := v] = butlast xs @ [v]"
  by (induction xs rule: rev_induct) simp_all

subsection \<open>The boundaries\<close>

lemma payload_parser_eq:
  "payload_parser enc p =
     butlast (payload_loop (int_quotient (getsizeof (json_dumps enc (contacts p))) (length (contacts p)))
               (length (contacts p)) [0]) @ [length (contacts p)]"
  unfolding payload_parser_def Let_def
  by (rule set_last_butlast) (simp add: payload_loop_nonempty)

lemma payload_parser_sorted: "sorted_wrt (<) (payload_parser enc p)"
proof -
  let ?r = "payload_loop (int_quotient (getsizeof (json_dumps enc (contacts p))) (length (contacts p)))
               (length (contacts p)) [0]"
  have "sorted_wrt (<) ?r" by (rule payload_loop_sorted) simp
  then have "sorted_wrt (<) (butlast ?r)"
    by (metis append_butlast_last_id butlast.simps(1) sorted_wrt_append)
  moreover have "\<forall>x\<in>set (butlast ?r). x < length (contacts p)"
    by (rule payload_loop_below) simp
  ultimately show ?thesis
    by (simp add: payload_parser_eq sorted_wrt_append)
qed

lemma payload_parser_last: "last (payload_parser enc p) = length (contacts p)"
  by (simp add: payload_parser_eq)

lemma payload_parser_nonempty: "payload_parser enc p \<noteq> []"
  by (simp add: payload_parser_eq)

lemma payload_parser_hd: "hd (payload_parser enc p) = 0"
proof -
  let ?n = "length (contacts p)"
  let ?r = "payload_loop (int_quotient (getsizeof (json_dumps enc (contacts p))) ?n) ?n [0]"
  obtain ys where r: "?r = [0] @ ys" using payload_loop_prefix by blast
  show ?thesis
  proof (cases ys rule: rev_cases)
    case Nil
    with r have "last ?r = 0" by simp
    with payload_loop_last [of ?n _ "[0]"] have "?n = 0" by (metis le_zero_eq)
    with r Nil show ?thesis by (simp add: payload_parser_eq)
  next
    case (snoc zs z)
    with r have "butlast ?r = 0 # zs" by (simp add: butlast_append)
    then show ?thesis by (simp add: payload_parser_eq)
  qed
qed

lemma payload_parser_empty: "payload_parser enc \<lparr>contacts = []\<rparr> = [0]"
  by (simp add: payload_parser_eq) (subst payload_loop.simps, simp)

lemma payload_parser_steps:
  "successively (\<lambda>a b. b \<le> a + int_quotient (getsizeof (json_dumps enc (contacts p))) (length (contacts p)) + 1)
     (payload_parser enc p)"
proof -
  let ?n = "length (contacts p)"
  let ?q = "int_quotient (getsizeof (json_dumps enc (contacts p))) ?n"
  let ?r = "payload_loop ?q ?n [0]"
  let ?P = "\<lambda>a b. b \<le> a + ?q + 1"
  have ne: "?r \<noteq> []" by (simp add: payload_loop_nonempty)
  have "successively ?P ?r" by (rule payload_loop_steps) simp_all
  then have "successively ?P (butlast ?r @ [last ?r])" using ne by simp
  then have s: "successively ?P (butlast ?r)"
    and l: "butlast ?r \<noteq> [] \<Longrightarrow> last ?r \<le> last (butlast ?r) + ?q + 1"
    by (simp_all add: successively_append_iff)
  have n: "?n \<le> last ?r" by (rule payload_loop_last)
  show ?thesis
  proof (cases "butlast ?r = []")
    case True
    then show ?thesis by (simp add: payload_parser_eq)
  next
    case False
    with l n have "?n \<le> last (butlast ?r) + ?q + 1" by linarith
    with s False show ?thesis
      by (simp add: payload_parser_eq successively_append_iff)
  qed
qed

lemma successively_nth:
  "successively P xs \<Longrightarrow> Suc i < length xs \<Longrightarrow> P (xs ! i) (xs ! Suc i)"
proof (induction P xs arbitrary: i rule: successively.induct)
  case (3 P x y xs)
  then show ?case by (cases i) simp_all
qed simp_all

text \<open>
  Claim C2. For a record list of any length \<open>N\<close>, \<^verbatim>\<open>payload_parser\<close> returns (the function
  is total, so the loop ends) a list of boundaries that begins with \<open>0\<close>, increases strictly
  and ends with \<open>N\<close>; for the empty record list it returns the single boundary \<open>[0]\<close>.
  The lemmas about the loop hold for every value \<open>q\<close> of the truncated quotient, so the
  rounding of the division has no part in this.
\<close>

theorem payload_parser_boundaries:
  "payload_parser enc p \<noteq> []
   \<and> hd (payload_parser enc p) = 0
   \<and> sorted_wrt (<) (payload_parser enc p)
   \<and> last (payload_parser enc p) = length (contacts p)
   \<and> payload_parser enc \<lparr>contacts = []\<rparr> = [0]"
  by (simp add: payload_parser_nonempty payload_parser_hd payload_parser_sorted
      payload_parser_last payload_parser_empty)

subsection \<open>Slices between consecutive boundaries\<close>

lemma slice_append:
  "a \<le> b \<Longrightarrow> b \<le> c \<Longrightarrow> slice xs a b @ slice xs b c = slice xs a c"
proof -
  assume ab: "a \<le> b" and bc: "b \<le> c"
  have "take (c - a) (drop a xs) = take ((b - a) + (c - b)) (drop a xs)"
    using ab bc by simp
  also have "\<dots> = take (b - a) (drop a xs) @ take (c - b) (drop (b - a) (drop a xs))"
    by (rule take_add)
  also have "drop (b - a) (drop a xs) = drop b xs"
    using ab by simp
  finally show ?thesis by (simp add: slice_def)
qed

lemma slice_same: "slice xs a a = []"
  by (simp add: slice_def)

lemma slice_all: "slice xs 0 (length xs) = xs"
  by (simp add: slice_def)

lemma upt_shift: "[0 ..< Suc n] = 0 # map Suc [0 ..< n]"
proof -
  have "[0 ..< Suc n] = 0 # [Suc 0 ..< Suc n]" by (rule upt_conv_Cons) simp
  then show ?thesis by (simp only: map_Suc_upt)
qed

lemma concat_slices:
  "sorted bs \<Longrightarrow> bs \<noteq> [] \<Longrightarrow>
   concat (map (\<lambda>i. slice xs (bs ! i) (bs ! (i + 1))) [0 ..< length bs - 1]) =
   slice xs (hd bs) (last bs)"
proof (induction bs rule: induct_list012)
  case 1
  then show ?case by simp
next
  case (2 b)
  then show ?case by (simp add: slice_same)
next
  case (3 b c cs)
  have "concat (map (\<lambda>i. slice xs ((b # c # cs) ! i) ((b # c # cs) ! (i + 1)))
          [0 ..< length (b # c # cs) - 1])
        = slice xs b c @
          concat (map (\<lambda>i. slice xs ((c # cs) ! i) ((c # cs) ! (i + 1))) [0 ..< length (c # cs) - 1])"
    by (simp add: upt_shift comp_def del: upt_Suc)
  also have "\<dots> = slice xs b c @ slice xs c (last (c # cs))"
    using 3 by simp
  also have "\<dots> = slice xs b (last (c # cs))"
    using 3(3) by (intro slice_append) auto
  finally show ?case by simp
qed

lemma payload_parser_concat:
  "concat (map (\<lambda>i. slice xs (payload_parser enc \<lparr>contacts = xs\<rparr> ! i)
                            (payload_parser enc \<lparr>contacts = xs\<rparr> ! (i + 1)))
            [0 ..< length (payload_parser enc \<lparr>contacts = xs\<rparr>) - 1]) = xs"
proof -
  let ?bs = "payload_parser enc \<lparr>contacts = xs\<rparr>"
  have "sorted ?bs"
    using payload_parser_sorted [of enc "\<lparr>contacts = xs\<rparr>"]
    by (rule sorted_wrt_mono_rel [rotated]) simp
  then show ?thesis
    using concat_slices [of ?bs xs] payload_parser_nonempty [of enc "\<lparr>contacts = xs\<rparr>"]
    by (simp add: payload_parser_hd payload_parser_last slice_all)
qed

subsection \<open>The bulk-import loop\<close>

lemma load_string_url: "load_string ''url'' = Inl NameError"
  by (simp add: load_string_def module_strings_def)

lemma load_string_url_bulk_import_contact:
  "load_string ''url_bulk_import_contact'' = Inr ''https://hri618.api-us1.com/api/3/import/bulk_import''"
  by (simp add: load_string_def module_strings_def)

lemma load_headers_post:
  "load_headers api_token ''headers_post_bulk_import_contact''
   = Inr (headers_post_bulk_import_contact api_token)"
  by (simp add: load_headers_def module_headers_def)

lemma posted_batches:
  "posted (concat (map (\<lambda>b. [Post u \<lparr>contacts = b\<rparr> h, Sleep n]) bs)) = bs"
  by (induction bs) simp_all

text \<open>With a name that the file binds in the place of \<^verbatim>\<open>url\<close>, the loop is one POST of each
  slice, in order, each followed by the pause.\<close>

lemma post_batches_bound:
  assumes "load_string url_name = Inr u" and "load_headers api_token headers_name = Inr h"
  shows "post_batches url_name headers_name api_token to_import payload_index js =
     (concat (map (\<lambda>i. [Post u \<lparr>contacts = slice to_import (payload_index ! i)
                                                (payload_index ! (i + 1))\<rparr> h, Sleep 1]) js),
      Inr ())"
  using assms by (induction js) (simp_all add: Let_def)

lemma post_batches_bound_partition:
  "posted (fst (post_batches ''url_bulk_import_contact'' ''headers_post_bulk_import_contact''
      api_token to_import (payload_parser enc \<lparr>contacts = to_import\<rparr>)
      [0 ..< length (payload_parser enc \<lparr>contacts = to_import\<rparr>) - 1]))
   = map (\<lambda>i. slice to_import (payload_parser enc \<lparr>contacts = to_import\<rparr> ! i)
                              (payload_parser enc \<lparr>contacts = to_import\<rparr> ! (i + 1)))
       [0 ..< length (payload_parser enc \<lparr>contacts = to_import\<rparr>) - 1]"
proof -
  let ?bs = "payload_parser enc \<lparr>contacts = to_import\<rparr>"
  let ?batches = "map (\<lambda>i. slice to_import (?bs ! i) (?bs ! (i + 1))) [0 ..< length ?bs - 1]"
  have "fst (post_batches ''url_bulk_import_contact'' ''headers_post_bulk_import_contact''
          api_token to_import ?bs [0 ..< length ?bs - 1])
        = concat (map (\<lambda>b. [Post ''https://hri618.api-us1.com/api/3/import/bulk_import''
                                \<lparr>contacts = b\<rparr> (headers_post_bulk_import_contact api_token),
                              Sleep 1]) ?batches)"
    by (simp add: post_batches_bound [OF load_string_url_bulk_import_contact load_headers_post]
        comp_def)
  then show ?thesis by (simp only: posted_batches)
qed

lemma post_batches_unbound:
  "load_string url_name = Inl e \<Longrightarrow>
   post_batches url_name headers_name api_token to_import payload_index (i # js) = ([], Inl e)"
  by (simp add: Let_def)

lemma payload_parser_two_boundaries:
  "2 \<le> length (payload_parser enc \<lparr>contacts = x # xs\<rparr>)"
proof (rule ccontr)
  let ?bs = "payload_parser enc \<lparr>contacts = x # xs\<rparr>"
  assume "\<not> 2 \<le> length ?bs"
  moreover have "?bs \<noteq> []" by (rule payload_parser_nonempty)
  ultimately obtain b where b: "?bs = [b]"
    by (cases ?bs) (auto simp: Suc_le_eq)
  have "hd ?bs = 0" "last ?bs = length (x # xs)"
    using payload_parser_hd [of enc "\<lparr>contacts = x # xs\<rparr>"]
      payload_parser_last [of enc "\<lparr>contacts = x # xs\<rparr>"] by simp_all
  with b show False by simp
qed

text \<open>
  Claim C3. The first half holds: for every record list the slices between consecutive
  boundaries of \<^verbatim>\<open>payload_parser\<close>, taken in order, concatenate to the list itself, so no
  record is left out, none is repeated and the order is kept. The second half does not hold
  of the code: the call \<^verbatim>\<open>requests.post(url, ...)\<close> reads the name \<^verbatim>\<open>url\<close>, which the file
  binds nowhere (the endpoint is bound to \<^verbatim>\<open>url_bulk_import_contact\<close>). For a record list
  that is not empty the first round of the loop raises \<^verbatim>\<open>NameError\<close> and nothing is
  POSTed; for the empty list the loop has no round. With the bound name in the place of
  \<^verbatim>\<open>url\<close> the loop POSTs each slice once, in order (\<open>post_batches_bound_partition\<close>).
\<close>

theorem bulk_import_name_error:
  "concat (map (\<lambda>i. slice (x # xs) (payload_parser enc \<lparr>contacts = x # xs\<rparr> ! i)
                                    (payload_parser enc \<lparr>contacts = x # xs\<rparr> ! (i + 1)))
            [0 ..< length (payload_parser enc \<lparr>contacts = x # xs\<rparr>) - 1]) = x # xs
   \<and> bulk_import api_token enc (x # xs) = ([], Inl NameError)
   \<and> posted (fst (bulk_import api_token enc (x # xs))) = []
   \<and> bulk_import api_token enc [] = ([], Inr ())"
proof -
  let ?bs = "payload_parser enc \<lparr>contacts = x # xs\<rparr>"
  have "2 \<le> length ?bs" by (rule payload_parser_two_boundaries)
  then have "[0 ..< length ?bs - 1] = 0 # [1 ..< length ?bs - 1]"
    by (simp add: upt_conv_Cons)
  then have run: "bulk_import api_token enc (x # xs) = ([], Inl NameError)"
    by (simp add: bulk_import_def Let_def load_string_url)
  have empty: "bulk_import api_token enc [] = ([], Inr ())"
    by (simp add: bulk_import_def Let_def payload_parser_empty)
  have part: "concat (map (\<lambda>i. slice (x # xs) (?bs ! i) (?bs ! (i + 1))) [0 ..< length ?bs - 1])
              = x # xs"
    by (rule payload_parser_concat)
  from part run empty show ?thesis
    by (simp only: fst_conv posted.simps simp_thms)
qed

subsection \<open>Serialized size of uniform records\<close>

lemma length_join_uniform:
  "ss \<noteq> [] \<Longrightarrow> \<forall>s\<in>set ss. length s = b \<Longrightarrow>
   length (join sep ss) + length sep = length ss * (b + length sep)"
  by (induction sep ss rule: join.induct) simp_all

lemma length_json_dumps_uniform:
  assumes "xs \<noteq> []" and "\<forall>x\<in>set xs. length (enc x) = b"
  shows "length (json_dumps enc xs) = length xs * (b + 2)"
proof -
  have "length (join '', '' (map enc xs)) + length '', '' = length (map enc xs) * (b + length '', '')"
    using assms by (intro length_join_uniform) auto
  then show ?thesis by (simp add: json_dumps_def)
qed

lemma length_json_dumps_empty: "length (json_dumps enc []) = 2"
  by (simp add: json_dumps_def)

lemma int_quotient_div:
  "int_quotient s n = (360000 * n) div s"
proof -
  have "360000 / real s * real n = real (360000 * n) / real s"
    by simp
  then have "\<lfloor>360000 / real s * real n\<rfloor> = int ((360000 * n) div s)"
    by (simp only: floor_divide_of_nat_eq)
  moreover have "0 \<le> 360000 / real s * real n" by simp
  ultimately show ?thesis by (simp add: int_quotient_def py_int_def)
qed

lemma quotient_times_record:
  assumes "0 < n"
  shows "((360000 * n) div (49 + n * c)) * c < (360000 :: nat)"
proof (rule ccontr)
  let ?q = "(360000 * n) div (49 + n * c)"
  assume "\<not> ?q * c < 360000"
  then have big: "360000 \<le> ?q * c" by simp
  then have "0 < ?q" by (cases "?q = 0") simp_all
  then have "49 \<le> 49 * ?q" by simp
  moreover have "n * 360000 \<le> n * (?q * c)"
    using big by (rule mult_le_mono2)
  moreover have "?q * (49 + n * c) = 49 * ?q + n * (?q * c)"
    by (simp add: algebra_simps)
  moreover have "?q * (49 + n * c) \<le> 360000 * n"
    by (rule div_times_less_eq_dividend)
  ultimately show False by linarith
qed

lemma slice_subset: "set (slice xs a b) \<subseteq> set xs"
  unfolding slice_def by (meson set_take_subset set_drop_subset subset_trans)

lemma length_slice_le: "length (slice xs a b) \<le> b - a"
  by (simp add: slice_def)

text \<open>
  Claim C4, as amended. The claim as written bounds every slice of a list of uniform
  records by the ceiling of 360,000 bytes, and fails (1000 records of 698 bytes give a first
  slice of 515 records and 360,500 bytes, as evaluated further below). What holds:
  for a non-empty record list whose records all serialize to \<open>b\<close> bytes, every slice between
  consecutive boundaries serializes to less than 360,000 bytes plus one record with its
  separator (\<open>b + 2\<close> bytes). The step of the loop is the truncated quotient, whose records
  fit under the ceiling, plus one.
\<close>

theorem slice_size_within_one_record:
  assumes xs: "xs \<noteq> []" and uni: "\<forall>x\<in>set xs. length (enc x) = b"
    and i: "i < length (payload_parser enc \<lparr>contacts = xs\<rparr>) - 1"
  shows "length (json_dumps enc (slice xs (payload_parser enc \<lparr>contacts = xs\<rparr> ! i)
                                        (payload_parser enc \<lparr>contacts = xs\<rparr> ! (i + 1))))
         < 360000 + (b + 2)"
proof -
  let ?bs = "payload_parser enc \<lparr>contacts = xs\<rparr>"
  let ?n = "length xs"
  let ?q = "int_quotient (getsizeof (json_dumps enc xs)) ?n"
  let ?ys = "slice xs (?bs ! i) (?bs ! (i + 1))"
  have q: "?q * (b + 2) < 360000"
    using quotient_times_record [of ?n "b + 2"] xs
    by (simp add: int_quotient_div getsizeof_def length_json_dumps_uniform [OF xs uni])
  have "?bs ! Suc i \<le> ?bs ! i + ?q + 1"
    using successively_nth [OF payload_parser_steps [of enc "\<lparr>contacts = xs\<rparr>"], of i] i
    by simp
  then have len: "length ?ys \<le> ?q + 1"
    using length_slice_le [of xs "?bs ! i" "?bs ! (i + 1)"] by simp
  show ?thesis
  proof (cases "?ys = []")
    case True
    then show ?thesis by (simp add: length_json_dumps_empty)
  next
    case False
    have "\<forall>x\<in>set ?ys. length (enc x) = b"
      using uni slice_subset [of xs] by blast
    then have "length (json_dumps enc ?ys) = length ?ys * (b + 2)"
      by (rule length_json_dumps_uniform [OF False])
    also have "\<dots> \<le> (?q + 1) * (b + 2)"
      using len by (rule mult_le_mono1)
    also have "\<dots> = ?q * (b + 2) + (b + 2)" by simp
    also have "\<dots> < 360000 + (b + 2)" using q by simp
    finally show ?thesis .
  qed
qed

lemma payload_parser_two_records:
  "payload_parser id \<lparr>contacts = [''{}'', ''{}'']\<rparr> = [0, 2]"
proof -
  have "payload_loop 12631 (Suc (Suc 0)) [0] = [0, 12632]"
    apply (subst payload_loop.simps, simp)
    apply (subst payload_loop.simps, simp)
    done
  then show ?thesis
    by (simp add: payload_parser_def Let_def getsizeof_def json_dumps_def int_quotient_div)
qed

theorem slice_size_within_one_record_witness:
  "payload_parser id \<lparr>contacts = [''{}'', ''{}'']\<rparr> = [0, 2]
   \<and> length (json_dumps id (slice [''{}'', ''{}''] 0 2)) < 360000 + (2 + 2)"
  using slice_size_within_one_record [of "[''{}'', ''{}'']" id 2 0]
  by (simp add: payload_parser_two_records)

lemma payload_parser_thousand_records:
  "payload_parser id \<lparr>contacts = replicate 1000 (replicate 698 CHR ''a'')\<rparr> = [0, 515, 1000]"
proof -
  have "length (json_dumps id (replicate 1000 (replicate 698 CHR ''a''))) =
        length (replicate 1000 (replicate 698 CHR ''a'')) * (698 + 2)"
    by (rule length_json_dumps_uniform) simp_all
  then have size: "getsizeof (json_dumps id (replicate 1000 (replicate 698 CHR ''a''))) = 700049"
    by (simp add: getsizeof_def)
  have q: "int_quotient 700049 1000 = 514"
    by (simp add: int_quotient_div)
  have "payload_loop 514 1000 [0] = [0, 515, 1030]"
    apply (subst payload_loop.simps, simp)
    apply (subst payload_loop.simps, simp)
    apply (subst payload_loop.simps, simp)
    done
  then show ?thesis
    by (simp add: payload_parser_def Let_def size q)
qed

text \<open>
  The claim as written fails: 1000 records of 698 bytes each serialize to 700,000 bytes,
  the step is \<open>514 + 1\<close>, and the first slice holds 515 records, 360,500 bytes.
\<close>

theorem slice_over_ceiling:
  "payload_parser id \<lparr>contacts = replicate 1000 (replicate 698 CHR ''a'')\<rparr> = [0, 515, 1000]
   \<and> length (json_dumps id (slice (replicate 1000 (replicate 698 CHR ''a'')) 0 515)) = 360500
   \<and> \<not> length (json_dumps id (slice (replicate 1000 (replicate 698 CHR ''a'')) 0 515)) \<le> 360000"
proof -
  have "slice (replicate 1000 (replicate 698 CHR ''a'')) 0 515 = replicate 515 (replicate 698 CHR ''a'')"
    by (simp add: slice_def)
  moreover have "length (json_dumps id (replicate 515 (replicate 698 CHR ''a''))) =
        length (replicate 515 (replicate 698 CHR ''a'')) * (698 + 2)"
    by (rule length_json_dumps_uniform) simp_all
  ultimately show ?thesis
    by (simp add: payload_parser_thousand_records)
qed

subsection \<open>Projection of a page\<close>

lemma project_obj:
  "project ks (JObj kvs) =
     Inr (List.map_filter (\<lambda>k. map_option (Pair k) (map_of kvs k)) ks)"
proof (induction ks)
  case Nil
  then show ?case by simp
next
  case (Cons k ks)
  show ?case
  proof (cases "map_of kvs k")
    case None
    then have "k \<notin> set (map fst kvs)" by (simp add: map_of_eq_None_iff)
    with None Cons show ?thesis by simp
  next
    case (Some v)
    then have "k \<in> set (map fst kvs)"
      by (metis map_of_eq_None_iff option.distinct(1) set_map)
    with Some Cons show ?thesis by simp
  qed
qed

lemma map_of_map_filter_keys:
  "map_of (List.map_filter (\<lambda>k. map_option (Pair k) (m k)) ks) = m |` set ks"
proof (induction ks)
  case Nil
  then show ?case by simp
next
  case (Cons k ks)
  then show ?case
    by (cases "m k") (auto simp: restrict_map_def fun_eq_iff)
qed

lemma map_exn_project:
  "map_exn (project ks) (map JObj ds) =
     Inr (map (\<lambda>d. List.map_filter (\<lambda>k. map_option (Pair k) (map_of d k)) ks) ds)"
  by (induction ds) (simp_all add: project_obj)

text \<open>The comprehension is total on a page of contact objects, and what it builds for a
  contact is the contact restricted to the keys of the list.\<close>

lemma project_page_objects:
  assumes "py_getitem body ''contacts'' = Inr (JArr (map JObj ds))"
  shows "project_page ks body =
     Inr (map (\<lambda>d. List.map_filter (\<lambda>k. map_option (Pair k) (map_of d k)) ks) ds)"
  using assms by (simp add: project_page_def map_exn_project)

lemma project_page_restricts:
  assumes "py_getitem body ''contacts'' = Inr (JArr (map JObj ds))"
  shows "\<exists>out. project_page ks body = Inr out
            \<and> map map_of out = map (\<lambda>d. map_of d |` set ks) ds"
  by (simp add: project_page_objects [OF assms] comp_def map_of_map_filter_keys)

subsection \<open>The page functions\<close>

lemma load_headers_headers: "load_headers api_token ''headers'' = Inl NameError"
  by (simp add: load_headers_def module_headers_def)

lemma load_headers_get:
  "load_headers api_token ''headers_get_bounced_unsubbed_contact''
   = Inr (headers_get_bounced_unsubbed_contact api_token)"
  by (simp add: load_headers_def module_headers_def)

lemma load_string_url_bounced_contact:
  "load_string ''url_bounced_contact'' = Inr url_bounced_contact"
  by (simp add: load_string_def module_strings_def)

lemma load_string_url_unsubbed_contact:
  "load_string ''url_unsubbed_contact'' = Inr url_unsubbed_contact"
  by (simp add: load_string_def module_strings_def)

text \<open>With a name that the file binds in the place of \<^verbatim>\<open>headers\<close>, one call is one request
  and the projection of the page it answers with.\<close>

lemma get_page_bound:
  assumes "load_string url_name = Inr u" and "load_headers api_token headers_name = Inr h"
    and "py_getitem (api (page_request u h index)) ''contacts'' = Inr (JArr (map JObj ds))"
  shows "get_page url_name headers_name ks api_token api index =
     ([Get (page_request u h index), Sleep 1],
      Inr (map (\<lambda>d. List.map_filter (\<lambda>k. map_option (Pair k) (map_of d k)) ks) ds))"
  using assms by (simp add: get_page_def Let_def project_page_objects)

lemma get_page_unbound_headers:
  assumes "load_string url_name = Inr u" and "load_headers api_token headers_name = Inl e"
  shows "get_page url_name headers_name ks api_token api index = ([], Inl e)"
  using assms by (simp add: get_page_def)

lemma get_bounced_contacts_raises:
  "get_bounced_contacts api_token api index = ([], Inl NameError)"
  unfolding get_bounced_contacts_def
  by (rule get_page_unbound_headers [OF load_string_url_bounced_contact load_headers_headers])

lemma get_unsubbed_contacts_raises:
  "get_unsubbed_contacts api_token api index = ([], Inl NameError)"
  unfolding get_unsubbed_contacts_def
  by (rule get_page_unbound_headers [OF load_string_url_unsubbed_contact load_headers_headers])

text \<open>
  Claim C10. The projection itself is as the claim says (\<open>project_page_restricts\<close>): on a
  page of contact objects it fails on no key and gives each contact restricted to the keys
  of the list. But neither function returns a list: both pass \<^verbatim>\<open>headers = headers\<close>, a name
  that the file binds nowhere (the sibling calls use
  \<^verbatim>\<open>headers_get_bounced_unsubbed_contact\<close>), so every call raises \<^verbatim>\<open>NameError\<close> before the
  request and before the projection.
\<close>

theorem page_functions_name_error:
  "get_bounced_contacts api_token api index = ([], Inl NameError)
   \<and> get_unsubbed_contacts api_token api index = ([], Inl NameError)
   \<and> project_page bounced_keys
        (JObj [(''contacts'',
           JArr [JObj [(''id'', JStr ''7''), (''phone'', JStr ''0400''), (''email'', JStr ''a@b.org'')]])])
       = Inr [[(''email'', JStr ''a@b.org''), (''id'', JStr ''7'')]]"
  by (simp add: get_bounced_contacts_raises get_unsubbed_contacts_raises)
     (simp add: project_page_def bounced_keys_def)

subsection \<open>Scatter and gather\<close>

lemma Parallel_all_ok:
  assumes "\<forall>i\<in>set iterator. f i = ([Get (req i), Sleep 1], Inr (g i))"
  shows "Parallel f iterator =
     (concat (map (\<lambda>i. [Get (req i), Sleep 1]) iterator), Inr (map g iterator))"
  using assms by (induction iterator) simp_all

lemma Parallel_first_raises:
  "f i = ([], Inl e) \<Longrightarrow> Parallel f (i # iterator) = ([], Inl e)"
  by simp

lemma requested_pages:
  "requested (concat (map (\<lambda>i. [Get (req i), Sleep n]) iterator)) = map req iterator"
  by (induction iterator) simp_all

lemma sum_full_pages:
  "sum_list (map (\<lambda>i. min 100 (t - 100 * i)) [0 ..< k]) = min (100 * k) (t :: nat)"
  by (induction k) auto

lemma page_count_covers: "nat T \<le> 100 * nat \<lceil>real_of_int T / 100\<rceil>"
proof -
  have "\<lceil>real_of_int T / 100\<rceil> = - (- T div 100)"
    using ceiling_divide_eq_div [of T 100] by simp
  then show ?thesis by linarith
qed

text \<open>With a name that the file binds in the place of \<^verbatim>\<open>headers\<close>, the pages of a total
  \<open>T\<close> are requested once each, page \<open>i\<close> at offset \<open>100 * i\<close>, and the results come back in
  the order of the pages; full pages give \<open>T\<close> entries.\<close>

lemma pages_with_bound_name:
  fixes pages :: "nat \<Rightarrow> dict list"
  assumes u: "load_string url_name = Inr u" and h: "load_headers api_token headers_name = Inr h"
    and pages: "\<forall>i < nat \<lceil>real_of_int T / 100\<rceil>.
                  py_getitem (api (page_request u h i)) ''contacts'' = Inr (JArr (map JObj (pages i)))"
  shows "Parallel (get_page url_name headers_name ks api_token api) (page_iterator T) =
     (concat (map (\<lambda>i. [Get (page_request u h i), Sleep 1]) [0 ..< nat \<lceil>real_of_int T / 100\<rceil>]),
      Inr (map (\<lambda>i. map (\<lambda>d. List.map_filter (\<lambda>k. map_option (Pair k) (map_of d k)) ks) (pages i))
             [0 ..< nat \<lceil>real_of_int T / 100\<rceil>]))"
proof -
  have "\<forall>i\<in>set (page_iterator T).
          get_page url_name headers_name ks api_token api i =
          ([Get (page_request u h i), Sleep 1],
           Inr (map (\<lambda>d. List.map_filter (\<lambda>k. map_option (Pair k) (map_of d k)) ks) (pages i)))"
    using pages by (auto simp: page_iterator_def get_page_bound [OF u h])
  from Parallel_all_ok [OF this] show ?thesis
    by (simp add: page_iterator_def)
qed

lemma full_pages_total:
  fixes pages :: "nat \<Rightarrow> 'b list"
  assumes "\<forall>i < nat \<lceil>real_of_int T / 100\<rceil>. length (pages i) = min 100 (nat T - 100 * i)"
  shows "length (concat (map pages [0 ..< nat \<lceil>real_of_int T / 100\<rceil>])) = nat T"
proof -
  let ?n = "nat \<lceil>real_of_int T / 100\<rceil>"
  have "length (concat (map pages [0 ..< ?n])) = sum_list (map (\<lambda>i. length (pages i)) [0 ..< ?n])"
    by (simp add: length_concat comp_def)
  also have "\<dots> = sum_list (map (\<lambda>i. min 100 (nat T - 100 * i)) [0 ..< ?n])"
    using assms by (intro arg_cong [where f = sum_list] map_cong) simp_all
  also have "\<dots> = min (100 * ?n) (nat T)" by (rule sum_full_pages)
  also have "\<dots> = nat T" using page_count_covers [of T] by simp
  finally show ?thesis .
qed

lemma page_iterator_250: "page_iterator 250 = [0, 1, 2]"
  by (simp add: page_iterator_def upt_rec)

text \<open>
  Claim C5. The page arithmetic is as the claim says: a total of 250 gives the page
  indices 0, 1 and 2, and with a bound name in the place of \<^verbatim>\<open>headers\<close> each page is
  requested once at offset \<open>100 * i\<close> and the results are gathered in page order
  (\<open>pages_with_bound_name\<close>, \<open>full_pages_total\<close>). But the code issues no page request: the
  page functions raise \<^verbatim>\<open>NameError\<close> on the unbound name \<^verbatim>\<open>headers\<close>, so for a total of
  250, as for any total of at least 1, the collector ends in that exception with no
  request made.
\<close>

theorem collate_name_error:
  "page_iterator 250 = [0, 1, 2]
   \<and> collate api_token api 250 ''bounced'' = ([], Inl NameError)
   \<and> requested (fst (collate api_token api 250 ''bounced'')) = []
   \<and> collate api_token api 250 ''unsubbed'' = ([], Inl NameError)
   \<and> requested (fst (collate api_token api 250 ''unsubbed'')) = []"
  by (simp add: page_iterator_250 collate_def process_contacts_def Let_def
      get_bounced_contacts_raises get_unsubbed_contacts_raises)

subsection \<open>Constituent id\<close>

lemma filter_exn_total:
  "\<forall>x\<in>set xs. p x = Inr (q x) \<Longrightarrow> filter_exn p xs = Inr (filter q xs)"
  by (induction xs) simp_all

lemma field_two_objects:
  assumes "py_getitem response ''fieldValues'' = Inr (JArr (map JObj fvs))"
    and "\<forall>fv\<in>set fvs. map_of fv ''field'' \<noteq> None"
  shows "field_two response =
     Inr (map JObj (filter (\<lambda>fv. map_of fv ''field'' = Some (JStr ''2'')) fvs))"
proof -
  let ?p = "\<lambda>i. case py_getitem i ''field'' of Inl e \<Rightarrow> Inl e | Inr f \<Rightarrow> Inr (f = JStr ''2'')"
  let ?q = "\<lambda>i. py_getitem i ''field'' = Inr (JStr ''2'')"
  have "\<forall>x\<in>set (map JObj fvs). ?p x = Inr (?q x)"
    using assms(2) by auto
  then have "filter_exn ?p (map JObj fvs) = Inr (filter ?q (map JObj fvs))"
    by (rule filter_exn_total)
  moreover have "filter ?q (map JObj fvs) =
      map JObj (filter (\<lambda>fv. map_of fv ''field'' = Some (JStr ''2'')) fvs)"
    using assms(2) by (induction fvs) auto
  ultimately show ?thesis
    using assms(1) by (simp add: field_two_def)
qed

lemma find_filter_hd:
  "List.find P xs = (case filter P xs of [] \<Rightarrow> None | x # _ \<Rightarrow> Some x)"
  by (induction xs) simp_all

text \<open>
  Claim C9. For a contact whose answer holds, under \<^verbatim>\<open>"fieldValues"\<close>, a list of objects
  that each have a \<^verbatim>\<open>"field"\<close> and a \<^verbatim>\<open>"value"\<close>, \<^verbatim>\<open>get_contacts_cons_id\<close> returns
  without an exception: the \<^verbatim>\<open>"value"\<close> of the first entry whose \<^verbatim>\<open>"field"\<close> is the string
  \<^verbatim>\<open>"2"\<close> when there is one, and \<^verbatim>\<open>NaN\<close> when there is none (also for an empty list).
\<close>

theorem cons_id_fallback:
  assumes "py_getitem (api (cons_id_request api_token cons_id)) ''fieldValues''
           = Inr (JArr (map JObj fvs))"
    and "\<forall>fv\<in>set fvs. map_of fv ''field'' \<noteq> None \<and> map_of fv ''value'' \<noteq> None"
  shows "snd (get_contacts_cons_id api_token api cons_id) =
     Inr (case List.find (\<lambda>fv. map_of fv ''field'' = Some (JStr ''2'')) fvs of
            None \<Rightarrow> NaN
          | Some fv \<Rightarrow> Value (the (map_of fv ''value'')))"
proof -
  let ?req = "cons_id_request api_token cons_id"
  let ?sel = "filter (\<lambda>fv. map_of fv ''field'' = Some (JStr ''2'')) fvs"
  have sel: "field_two (api ?req) = Inr (map JObj ?sel)"
    using assms by (intro field_two_objects) auto
  show ?thesis
  proof (cases ?sel)
    case Nil
    then show ?thesis
      by (simp add: get_contacts_cons_id_def Let_def sel find_filter_hd)
  next
    case (Cons fv rest)
    then have "fv \<in> set fvs"
      by (metis filter_is_subset list.set_intros(1) subsetD)
    with assms(2) obtain v where "map_of fv ''value'' = Some v" by auto
    with Cons show ?thesis
      by (simp add: get_contacts_cons_id_def Let_def sel find_filter_hd)
  qed
qed

theorem cons_id_fallback_witness:
  "snd (get_contacts_cons_id ''token''
         (\<lambda>r. JObj [(''fieldValues'',
                 JArr (map JObj
                   [[(''field'', JStr ''1''), (''value'', JStr ''Mr'')],
                    [(''field'', JStr ''2''), (''value'', JStr ''C123'')],
                    [(''field'', JStr ''2''), (''value'', JStr ''C999'')]]))])
         ''17'') = Inr (Value (JStr ''C123''))
   \<and> snd (get_contacts_cons_id ''token''
         (\<lambda>r. JObj [(''fieldValues'',
                 JArr (map JObj [[(''field'', JStr ''1''), (''value'', JStr ''Mr'')]]))])
         ''17'') = Inr NaN"
  using
    cons_id_fallback [of
      "\<lambda>r. JObj [(''fieldValues'',
                 JArr (map JObj
                   [[(''field'', JStr ''1''), (''value'', JStr ''Mr'')],
                    [(''field'', JStr ''2''), (''value'', JStr ''C123'')],
                    [(''field'', JStr ''2''), (''value'', JStr ''C999'')]]))]"
      "''token''" "''17''"
      "[[(''field'', JStr ''1''), (''value'', JStr ''Mr'')],
        [(''field'', JStr ''2''), (''value'', JStr ''C123'')],
        [(''field'', JStr ''2''), (''value'', JStr ''C999'')]]"]
    cons_id_fallback [of
      "\<lambda>r. JObj [(''fieldValues'',
                 JArr (map JObj [[(''field'', JStr ''1''), (''value'', JStr ''Mr'')]]))]"
      "''token''" "''17''"
      "[[(''field'', JStr ''1''), (''value'', JStr ''Mr'')]]"]
  by simp

subsection \<open>Date-range filter\<close>

lemma between_cell:
  "(cell_gt c s \<and> cell_lt c e) = (\<exists>d. c = Date d \<and> s < d \<and> d < e)"
  by (cases c) auto

text \<open>
  Claim C6. A row of the bounced frame is kept by the filter exactly when it is a row of
  the frame and its \<^verbatim>\<open>bounced_date\<close> is a date strictly after \<^verbatim>\<open>start_date\<close> and strictly
  before \<^verbatim>\<open>end_date\<close>; the same for the unsubscribed frame and \<^verbatim>\<open>udate\<close>. A row dated
  \<^verbatim>\<open>start_date\<close> or \<^verbatim>\<open>end_date\<close> itself is dropped. The witness is the window 2024-01-08
  to 2024-01-16: the 8th and the 16th are dropped, the 9th and the 15th are kept.
\<close>

theorem date_filter_open_interval:
  "(r \<in> set (filter_bounced start_date end_date df_contacts_bounced) \<longleftrightarrow>
      r \<in> set df_contacts_bounced
      \<and> (\<exists>d. bounced_date r = Date d \<and> start_date < d \<and> d < end_date))
   \<and> (u \<in> set (filter_unsubbed start_date end_date df_contacts_unsubbed) \<longleftrightarrow>
      u \<in> set df_contacts_unsubbed
      \<and> (\<exists>d. udate u = Date d \<and> start_date < d \<and> d < end_date))"
  by (simp add: filter_bounced_def filter_unsubbed_def between_cell)

lemma ymd_2024_01:
  "ymd 2024 (Suc 0) d = 738885 + int d"
  by (simp add: ymd_def days_before_year_def days_before_month_def)

theorem date_filter_open_interval_witness:
  "\<lparr>bounced_date = Date (ymd 2024 1 8)\<rparr>
     \<notin> set (filter_bounced (ymd 2024 1 8) (ymd 2024 1 16)
         [\<lparr>bounced_date = Date (ymd 2024 1 8)\<rparr>, \<lparr>bounced_date = Date (ymd 2024 1 9)\<rparr>,
          \<lparr>bounced_date = Date (ymd 2024 1 15)\<rparr>, \<lparr>bounced_date = Date (ymd 2024 1 16)\<rparr>])
   \<and> \<lparr>bounced_date = Date (ymd 2024 1 9)\<rparr>
     \<in> set (filter_bounced (ymd 2024 1 8) (ymd 2024 1 16)
         [\<lparr>bounced_date = Date (ymd 2024 1 8)\<rparr>, \<lparr>bounced_date = Date (ymd 2024 1 9)\<rparr>,
          \<lparr>bounced_date = Date (ymd 2024 1 15)\<rparr>, \<lparr>bounced_date = Date (ymd 2024 1 16)\<rparr>])
   \<and> \<lparr>cdate = NaT, udate = Date (ymd 2024 1 15)\<rparr>
     \<in> set (filter_unsubbed (ymd 2024 1 8) (ymd 2024 1 16)
         [\<lparr>cdate = NaT, udate = Date (ymd 2024 1 15)\<rparr>, \<lparr>cdate = NaT, udate = Date (ymd 2024 1 16)\<rparr>])
   \<and> \<lparr>cdate = NaT, udate = Date (ymd 2024 1 16)\<rparr>
     \<notin> set (filter_unsubbed (ymd 2024 1 8) (ymd 2024 1 16)
         [\<lparr>cdate = NaT, udate = Date (ymd 2024 1 15)\<rparr>, \<lparr>cdate = NaT, udate = Date (ymd 2024 1 16)\<rparr>])
   \<and> filter_bounced (ymd 2024 1 8) (ymd 2024 1 16)
         [\<lparr>bounced_date = Date (ymd 2024 1 8)\<rparr>, \<lparr>bounced_date = Date (ymd 2024 1 9)\<rparr>,
          \<lparr>bounced_date = Date (ymd 2024 1 15)\<rparr>, \<lparr>bounced_date = Date (ymd 2024 1 16)\<rparr>]
       = [\<lparr>bounced_date = Date (ymd 2024 1 9)\<rparr>, \<lparr>bounced_date = Date (ymd 2024 1 15)\<rparr>]"
  using
    date_filter_open_interval [of "\<lparr>bounced_date = Date (ymd 2024 1 8)\<rparr>"
      "ymd 2024 1 8" "ymd 2024 1 16"
      "[\<lparr>bounced_date = Date (ymd 2024 1 8)\<rparr>, \<lparr>bounced_date = Date (ymd 2024 1 9)\<rparr>,
        \<lparr>bounced_date = Date (ymd 2024 1 15)\<rparr>, \<lparr>bounced_date = Date (ymd 2024 1 16)\<rparr>]"
      "\<lparr>cdate = NaT, udate = Date (ymd 2024 1 16)\<rparr>"
      "[\<lparr>cdate = NaT, udate = Date (ymd 2024 1 15)\<rparr>, \<lparr>cdate = NaT, udate = Date (ymd 2024 1 16)\<rparr>]"]
    date_filter_open_interval [of "\<lparr>bounced_date = Date (ymd 2024 1 9)\<rparr>"
      "ymd 2024 1 8" "ymd 2024 1 16"
      "[\<lparr>bounced_date = Date (ymd 2024 1 8)\<rparr>, \<lparr>bounced_date = Date (ymd 2024 1 9)\<rparr>,
        \<lparr>bounced_date = Date (ymd 2024 1 15)\<rparr>, \<lparr>bounced_date = Date (ymd 2024 1 16)\<rparr>]"
      "\<lparr>cdate = NaT, udate = Date (ymd 2024 1 15)\<rparr>"
      "[\<lparr>cdate = NaT, udate = Date (ymd 2024 1 15)\<rparr>, \<lparr>cdate = NaT, udate = Date (ymd 2024 1 16)\<rparr>]"]
  by (simp add: ymd_2024_01 filter_bounced_def)

subsection \<open>Rolling window\<close>

lemma weekday_range: "0 \<le> weekday d \<and> weekday d \<le> 6"
  by (simp add: weekday_def)

lemma weekday_le: "1 \<le> d \<Longrightarrow> weekday d \<le> d - 1"
  unfolding weekday_def by presburger

lemma weekday_monday: "weekday (d - weekday d) = 0"
  unfolding weekday_def by presburger

lemma date_window_value:
  assumes "15 \<le> current_date" and "current_date \<le> max_ordinal"
  shows "date_window current_date =
     Inr (current_date - weekday current_date - 8, current_date - weekday current_date)"
proof -
  have w: "0 \<le> weekday current_date" "weekday current_date \<le> 6"
    using weekday_range [of current_date] by simp_all
  with assms show ?thesis
    by (simp add: date_window_def add_days_def lookback_days_def weekly_multiplier_def)
qed

text \<open>
  Claim C7, as amended. The claim as written puts \<^verbatim>\<open>start_date\<close> one lookback (seven
  days) before the Monday of the week before the run, and fails (a run on 2024-01-17 is
  evaluated further below). What holds, for every run date from
  0001-01-15 on (earlier ones leave the range of dates and raise): the window is computed,
  \<^verbatim>\<open>end_date\<close> is \<^verbatim>\<open>start_date\<close> plus 8 days, and \<^verbatim>\<open>start_date\<close> is one day before
  \<open>last_week_start\<close>, the Monday of the week before the run, which is the Monday of the
  run's week minus \<^verbatim>\<open>lookback_days\<close>. The dates strictly inside the window are the seven
  days from that Monday to the Sunday after it.
\<close>

theorem rolling_window:
  assumes "15 \<le> current_date" and "current_date \<le> max_ordinal"
  shows "\<exists>start_date end_date.
      date_window current_date = Inr (start_date, end_date)
      \<and> end_date = start_date + 8
      \<and> start_date = last_week_start current_date - 1
      \<and> last_week_start current_date = current_date - weekday current_date - lookback_days
      \<and> weekday (last_week_start current_date) = 0
      \<and> {d. start_date < d \<and> d < end_date}
          = {last_week_start current_date .. last_week_start current_date + 6}"
proof -
  have mon: "weekday (last_week_start current_date) = 0"
    unfolding last_week_start_def weekday_def by presburger
  have "{d. current_date - weekday current_date - 8 < d \<and> d < current_date - weekday current_date}
        = {last_week_start current_date .. last_week_start current_date + 6}"
    by (auto simp: last_week_start_def)
  with mon show ?thesis
    by (simp add: date_window_value [OF assms] last_week_start_def lookback_days_def)
qed

theorem rolling_window_witness:
  "date_window (ymd 2024 1 17) = Inr (ymd 2024 1 7, ymd 2024 1 15)
   \<and> last_week_start (ymd 2024 1 17) = ymd 2024 1 8
   \<and> weekday (ymd 2024 1 8) = 0"
  using rolling_window [of "ymd 2024 1 17"]
  by (simp add: ymd_2024_01 max_ordinal_def last_week_start_def weekday_def lookback_days_def)

text \<open>
  The claim as written fails: for a run on Wednesday 2024-01-17 the Monday of the week
  before is 2024-01-08, one lookback earlier is 2024-01-01, and \<^verbatim>\<open>start_date\<close> is
  2024-01-07.
\<close>

theorem window_not_lookback_before_last_week:
  "date_window (ymd 2024 1 17) = Inr (ymd 2024 1 7, ymd 2024 1 15)
   \<and> last_week_start (ymd 2024 1 17) = ymd 2024 1 8
   \<and> last_week_start (ymd 2024 1 17) - lookback_days = ymd 2024 1 1
   \<and> ymd 2024 1 7 \<noteq> last_week_start (ymd 2024 1 17) - lookback_days"
  by (simp add: ymd_2024_01 date_window_def add_days_def max_ordinal_def last_week_start_def
      weekday_def lookback_days_def weekly_multiplier_def)

subsection \<open>List-id selection\<close>

lemma seg_listid_active:
  "sublist ''AU'' appeal \<Longrightarrow> sublist ''Active'' package \<Longrightarrow> seg_listid appeal package = Inr ''199''"
  by (simp add: seg_listid_def np_select_def)

lemma seg_listid_example: "seg_listid ''24AU07'' ''RG_Active-M'' = Inr ''199''"
  by (rule seg_listid_active) (simp_all add: sublist_Cons_right)

lemma welcome_listid_raises: "\<exists>e. welcome_listid i = Inl e"
proof (cases i)
  case (JObj kvs)
  show ?thesis
  proof (cases "map_of kvs ''Name''")
    case None
    with JObj show ?thesis by (simp add: welcome_listid_def)
  next
    case (Some name)
    with JObj show ?thesis
      by (cases "py_endswith name ''.xlsx''") (simp_all add: welcome_listid_def)
  qed
qed (simp_all add: welcome_listid_def)

text \<open>
  Claim C8. The segmentation half holds of the selection itself (\<open>seg_listid_active\<close>
  above): a row whose Appeal contains \<^verbatim>\<open>AU\<close> and whose Package contains \<^verbatim>\<open>Active\<close> gets
  \<^verbatim>\<open>"199"\<close>. The welcome half does not hold of the code: whatever the entry \<open>i\<close> of the
  folder listing is, the loop raises before a list-id is chosen. An entry that
  \<^verbatim>\<open>i["Name"]\<close> can index is a dict and has no \<^verbatim>\<open>split\<close> (\<^verbatim>\<open>AttributeError\<close>); a file
  name, which has \<^verbatim>\<open>split\<close>, cannot be indexed by \<^verbatim>\<open>"Name"\<close> (\<^verbatim>\<open>TypeError\<close>). So no row of
  a file named \<^verbatim>\<open>Welcome.csv\<close> is given the list-id \<^verbatim>\<open>"71"\<close>.
\<close>

theorem welcome_listid_not_constructed:
  "welcome_listid (JObj [(''Name'', JStr ''Welcome.csv'')]) = Inl AttributeError
   \<and> welcome_listid (JStr ''Welcome.csv'') = Inl TypeError
   \<and> (\<forall>i. \<exists>e. welcome_listid i = Inl e)"
  by (simp add: welcome_listid_raises) (simp add: welcome_listid_def)

subsection \<open>Run log\<close>

text \<open>
  Claim C1. When the folder holds \<^verbatim>\<open>runtime_logs.csv\<close>, the frame that is uploaded is the
  frame that was read, row for row: the result of \<^verbatim>\<open>append\<close> is dropped, so a log of three
  rows is uploaded with three rows, where appending this run's row gives four. When the
  folder has no such file, the upload is the one-row frame of this run under its header.
\<close>

theorem run_log_row_lost:
  "df_logs_to_upload (folder(''runtime_logs.csv'' \<mapsto> old)) (df_logs run) = old
   \<and> run_log_appender (folder(''runtime_logs.csv'' \<mapsto> old)) (df_logs run) ''runtime_logs.csv''
       = Some old
   \<and> length (rows (df_logs_to_upload
         (folder(''runtime_logs.csv'' \<mapsto> \<lparr>columns = log_columns, rows = [r1, r2, r3]\<rparr>))
         (df_logs run))) = 3
   \<and> length (rows (df_append \<lparr>columns = log_columns, rows = [r1, r2, r3]\<rparr> (df_logs run))) = 4
   \<and> df_logs_to_upload (folder(''runtime_logs.csv'' := None)) (df_logs run)
       = \<lparr>columns = log_columns, rows = [run]\<rparr>"
  by (simp add: df_logs_to_upload_def run_log_appender_def df_logs_def df_append_def Let_def)

end
